theory Spec2Isabelle
  imports Main "HOL-Library.Sublist" "HOL-Library.AList" "HOL-Library.Char_ord"
    "HOL-Library.List_Lexorder"
begin

section \<open>Go strings and the library functions the indexer calls\<close>

text \<open>
  A Go string is a sequence of bytes, so it is a \<open>string\<close> here (a \<open>char\<close> is
  one byte, read as a number by \<open>of_char\<close>).  A Go \<open>map\<close> is an association list
  whose keys are distinct; the order of the list stands for the (unspecified) order in
  which \<open>range\<close> visits the map.
\<close>

subsection \<open>UTF-8 (package unicode/utf8)\<close>

definition RuneError :: nat where
  "RuneError = 0xFFFD"

definition MaxRune :: nat where
  "MaxRune = 0x10FFFF"

definition contb :: "nat \<Rightarrow> bool" where
  \<comment> \<open>a continuation byte: \<open>locb <= b && b <= hicb\<close>\<close>
  "contb b = (0x80 \<le> b \<and> b \<le> 0xBF)"

definition accept_lo :: "nat \<Rightarrow> nat" where
  \<comment> \<open>\<open>acceptRanges[first[b0] >> 4].lo\<close> for a leading byte \<open>b0\<close>\<close>
  "accept_lo b0 = (if b0 = 0xE0 then 0xA0 else if b0 = 0xF0 then 0x90 else 0x80)"

definition accept_hi :: "nat \<Rightarrow> nat" where
  "accept_hi b0 = (if b0 = 0xED then 0x9F else if b0 = 0xF4 then 0x8F else 0xBF)"

fun decode_bytes :: "nat list \<Rightarrow> nat \<times> nat" where
  \<comment> \<open>\<open>utf8.DecodeRuneInString\<close> on byte values: the rune and its width; an invalid or
      short sequence is \<open>(RuneError, 1)\<close>.  \<open>b AND mask\<close> is written \<open>b mod 2^k\<close>.\<close>
  "decode_bytes [] = (RuneError, 0)"
| "decode_bytes (b0 # bs) =
     (if b0 < 0x80 then (b0, 1)
      else if b0 < 0xC2 \<or> 0xF5 \<le> b0 then (RuneError, 1)
      else if b0 < 0xE0 then
        (case bs of
           b1 # _ \<Rightarrow>
             if accept_lo b0 \<le> b1 \<and> b1 \<le> accept_hi b0
             then ((b0 mod 32) * 64 + b1 mod 64, 2) else (RuneError, 1)
         | _ \<Rightarrow> (RuneError, 1))
      else if b0 < 0xF0 then
        (case bs of
           b1 # b2 # _ \<Rightarrow>
             if accept_lo b0 \<le> b1 \<and> b1 \<le> accept_hi b0 \<and> contb b2
             then ((b0 mod 16) * 4096 + (b1 mod 64) * 64 + b2 mod 64, 3)
             else (RuneError, 1)
         | _ \<Rightarrow> (RuneError, 1))
      else
        (case bs of
           b1 # b2 # b3 # _ \<Rightarrow>
             if accept_lo b0 \<le> b1 \<and> b1 \<le> accept_hi b0 \<and> contb b2 \<and> contb b3
             then ((b0 mod 8) * 262144 + (b1 mod 64) * 4096 + (b2 mod 64) * 64 + b3 mod 64, 4)
             else (RuneError, 1)
         | _ \<Rightarrow> (RuneError, 1)))"

definition utf8_DecodeRuneInString :: "string \<Rightarrow> nat \<times> nat" where
  "utf8_DecodeRuneInString s = decode_bytes (map of_char s)"

function runes :: "string \<Rightarrow> nat list" where
  \<comment> \<open>the runes a \<open>for _, c := range s\<close> loop visits\<close>
  "runes [] = []"
| "runes (c # s) =
     (case utf8_DecodeRuneInString (c # s) of (r, w) \<Rightarrow> r # runes (drop (w - 1) s))"
  by pat_completeness auto
termination
  by (relation "measure length") auto

definition utf8_RuneCountInString :: "string \<Rightarrow> nat" where
  "utf8_RuneCountInString s = length (runes s)"

definition utf8_EncodeRune :: "nat \<Rightarrow> string" where
  \<comment> \<open>\<open>utf8.AppendRune\<close>: a surrogate or a value above \<open>MaxRune\<close> is written as
      \<open>RuneError\<close>\<close>
  "utf8_EncodeRune r =
     (if r \<le> 0x7F then [char_of r]
      else if r \<le> 0x7FF then [char_of (0xC0 + r div 64), char_of (0x80 + r mod 64)]
      else if MaxRune < r \<or> (0xD800 \<le> r \<and> r \<le> 0xDFFF) then
        [char_of (0xEF::nat), char_of (0xBF::nat), char_of (0xBD::nat)]
      else if r \<le> 0xFFFF then
        [char_of (0xE0 + r div 4096), char_of (0x80 + (r div 64) mod 64),
         char_of (0x80 + r mod 64)]
      else
        [char_of (0xF0 + r div 262144), char_of (0x80 + (r div 4096) mod 64),
         char_of (0x80 + (r div 64) mod 64), char_of (0x80 + r mod 64)])"

subsection \<open>Package strings\<close>

definition ascii_lower :: "char \<Rightarrow> char" where
  \<comment> \<open>\<open>if 'A' <= c && c <= 'Z' { c += 'a' - 'A' }\<close>\<close>
  "ascii_lower c =
     (if (65::nat) \<le> of_char c \<and> of_char c \<le> (90::nat)
      then char_of (of_char c + (32::nat)) else c)"

definition unicode_ToLower :: "(nat \<Rightarrow> int) \<Rightarrow> nat \<Rightarrow> int" where
  \<comment> \<open>\<open>unicode.ToLower\<close>; \<open>tbl\<close> is \<open>unicode.To(unicode.LowerCase, r)\<close>, the lookup in
      the Unicode case tables, for a rune above \<open>MaxASCII\<close>\<close>
  "unicode_ToLower tbl r =
     (if r \<le> 0x7F then (if 65 \<le> r \<and> r \<le> 90 then int r + 32 else int r) else tbl r)"

definition strings_Map :: "(nat \<Rightarrow> int) \<Rightarrow> string \<Rightarrow> string" where
  \<comment> \<open>\<open>strings.Map\<close>: every rune of the string is mapped and written back in UTF-8; a
      negative result drops the rune.  (The library copies an unchanged well-formed
      prefix instead of encoding it again, which gives the same bytes.)\<close>
  "strings_Map mapping s =
     concat (map (\<lambda>c. if 0 \<le> mapping c then utf8_EncodeRune (nat (mapping c)) else []) (runes s))"

definition strings_ToLower :: "(nat \<Rightarrow> int) \<Rightarrow> string \<Rightarrow> string" where
  \<comment> \<open>\<open>strings.ToLower\<close>: the ASCII path changes bytes in place, any other string goes
      through \<open>strings.Map(unicode.ToLower, s)\<close>\<close>
  "strings_ToLower tbl s =
     (if \<forall>c \<in> set s. of_char c < (0x80::nat) then map ascii_lower s
      else strings_Map (unicode_ToLower tbl) s)"

fun strings_Index :: "string \<Rightarrow> string \<Rightarrow> nat option" where
  \<comment> \<open>\<open>strings.Index\<close>: the first position at which \<open>substr\<close> starts; \<open>None\<close> is -1\<close>
  "strings_Index [] substr = (if substr = [] then Some 0 else None)"
| "strings_Index (c # s) substr =
     (if prefix substr (c # s) then Some 0 else map_option Suc (strings_Index s substr))"

definition strings_Contains :: "string \<Rightarrow> string \<Rightarrow> bool" where
  \<comment> \<open>\<open>strings.Contains\<close>: \<open>Index(s, substr) >= 0\<close>\<close>
  "strings_Contains s substr = (strings_Index s substr \<noteq> None)"

function count_loop :: "string \<Rightarrow> string \<Rightarrow> nat" where
  \<comment> \<open>the loop of \<open>strings.Count\<close>: find the next instance, count it, go on behind it\<close>
  "count_loop s substr =
     (if substr = [] then 0
      else case strings_Index s substr of
             None \<Rightarrow> 0
           | Some i \<Rightarrow> Suc (count_loop (drop (i + length substr) s) substr))"
  by pat_completeness auto

lemma strings_Index_le: "strings_Index s substr = Some i \<Longrightarrow> i + length substr \<le> length s"
proof (induction s arbitrary: i)
  case Nil
  then show ?case by (simp split: if_splits)
next
  case (Cons c s)
  show ?case
  proof (cases "prefix substr (c # s)")
    case True
    with Cons.prems prefix_length_le [of substr "c # s"] show ?thesis by simp
  next
    case False
    with Cons.prems obtain j where "strings_Index s substr = Some j" "i = Suc j"
      by auto
    with Cons.IH show ?thesis by auto
  qed
qed

termination count_loop
proof (relation "measure (\<lambda>(s, substr). length s)")
  show "wf (measure (\<lambda>(s, substr). length s))" by simp
next
  fix s substr :: string and i
  assume "substr \<noteq> []" "strings_Index s substr = Some i"
  then have "i + length substr \<le> length s" "substr \<noteq> []"
    by (simp_all add: strings_Index_le)
  then show "((drop (i + length substr) s, substr), s, substr) \<in> measure (\<lambda>(s, substr). length s)"
    by (cases substr) auto
qed

definition strings_Count :: "string \<Rightarrow> string \<Rightarrow> nat" where
  \<comment> \<open>\<open>strings.Count\<close>: the number of non-overlapping instances of \<open>substr\<close> in \<open>s\<close>;
      for the empty \<open>substr\<close> it is the number of runes of \<open>s\<close> plus one, and a single
      byte is counted directly\<close>
  "strings_Count s substr =
     (if length substr = 0 then utf8_RuneCountInString s + 1
      else if length substr = 1 then count_list s (hd substr)
      else count_loop s substr)"

declare count_loop.simps [simp del]


section \<open>The index and the search engine (first variant: packages indexer and search)\<close>

record FileEntry =
  Path :: string
  LineIndex :: "(int \<times> string) list"
  Modified :: int

text \<open>The struct \<open>Index\<close> without its lock: the runs below are sequential.\<close>

record Index =
  files :: "(string \<times> FileEntry) list"
  workers :: int
  indexed :: nat
  skipped :: nat

definition NewIndex :: "int \<Rightarrow> Index" where
  "NewIndex w = \<lparr>files = [], workers = (if w \<le> 0 then 1 else w), indexed = 0, skipped = 0\<rparr>"

definition GetFiles :: "Index \<Rightarrow> (string \<times> FileEntry) list" where
  \<comment> \<open>a copy of the map: the caller's changes to it do not reach the index\<close>
  "GetFiles idx = files idx"

record SearchResult =
  FilePath :: string
  LineNumber :: int
  Line :: string
  MatchCount :: int

definition searchFile :: "(nat \<Rightarrow> int) \<Rightarrow> string \<Rightarrow> FileEntry \<Rightarrow> string \<Rightarrow> SearchResult list" where
  \<comment> \<open>the results one file sends on the channel\<close>
  "searchFile tbl path entry keyword =
     concat (map (\<lambda>(lineNum, line).
        let lowerLine = strings_ToLower tbl line;
            count = strings_Count lowerLine keyword
        in if count > 0
           then [\<lparr>FilePath = path, LineNumber = lineNum, Line = line, MatchCount = int count\<rparr>]
           else []) (LineIndex entry))"

definition Search :: "(nat \<Rightarrow> int) \<Rightarrow> Index \<Rightarrow> string \<Rightarrow> SearchResult list" where
  \<comment> \<open>one task per file; the results are collected here in the order of the files, the
      program collects them in the order the tasks send them\<close>
  "Search tbl idx keyword =
     (let files = GetFiles idx;
          keyword = strings_ToLower tbl keyword;
          sent = concat (map (\<lambda>(path, entry). searchFile tbl path entry keyword) files)
      in filter (\<lambda>result. MatchCount result > 0) sent)"

subsection \<open>The second variant's search\<close>

record ws_FileIndex =
  ws_Path :: string
  ws_LineMap :: "(int \<times> string) list"
  ws_Modified :: int



subsection \<open>What the specification says a search returns\<close>

function nonoverlapping :: "string \<Rightarrow> string \<Rightarrow> nat" where
  \<comment> \<open>non-overlapping substring counting, read from left to right: an occurrence that
      starts here is counted and skipped, otherwise the scan moves on by one byte\<close>
  "nonoverlapping kw [] = 0"
| "nonoverlapping kw (c # s) =
     (if kw \<noteq> [] \<and> prefix kw (c # s)
      then Suc (nonoverlapping kw (drop (length kw) (c # s)))
      else nonoverlapping kw s)"
  by pat_completeness auto
termination
  by (relation "measure (\<lambda>(kw, s). length s)") auto

definition occurrences :: "string \<Rightarrow> string \<Rightarrow> nat" where
  \<comment> \<open>the count of a keyword on a line; the empty keyword is counted once before every
      rune and once at the end\<close>
  "occurrences kw s = (if kw = [] then utf8_RuneCountInString s + 1 else nonoverlapping kw s)"

definition spec_results :: "(nat \<Rightarrow> int) \<Rightarrow> (string \<times> FileEntry) list \<Rightarrow> string \<Rightarrow> SearchResult list" where
  \<comment> \<open>one result for each line of each file record whose lower-cased text contains the
      lower-cased keyword\<close>
  "spec_results tbl store keyword =
     concat (map (\<lambda>(path, entry).
       concat (map (\<lambda>(n, line).
         if sublist (strings_ToLower tbl keyword) (strings_ToLower tbl line)
         then [\<lparr>FilePath = path, LineNumber = n, Line = line,
                MatchCount = int (occurrences (strings_ToLower tbl keyword) (strings_ToLower tbl line))\<rparr>]
         else []) (LineIndex entry))) store)"


section \<open>Search: the count and the containment test\<close>

lemma strings_Index_sublist: "strings_Index s substr \<noteq> None \<longleftrightarrow> sublist substr s"
  by (induction s) (auto simp: sublist_Cons_right)

lemma strings_Contains_sublist: "strings_Contains s substr \<longleftrightarrow> sublist substr s"
  unfolding strings_Contains_def by (rule strings_Index_sublist)

lemma nonoverlapping_no_instance:
  "strings_Index s kw = None \<Longrightarrow> nonoverlapping kw s = 0"
  by (induction s) (auto split: if_splits)

lemma nonoverlapping_first_instance:
  "kw \<noteq> [] \<Longrightarrow> strings_Index s kw = Some i \<Longrightarrow>
   nonoverlapping kw s = Suc (nonoverlapping kw (drop (i + length kw) s))"
proof (induction s arbitrary: i)
  case Nil
  then show ?case by simp
next
  case (Cons c s)
  show ?case
  proof (cases "prefix kw (c # s)")
    case True
    with Cons.prems show ?thesis by simp
  next
    case False
    with Cons.prems obtain j where j: "strings_Index s kw = Some j" "i = Suc j"
      by auto
    from Cons.IH [OF Cons.prems(1) j(1)] False j(2) show ?thesis by simp
  qed
qed

lemma count_loop_nonoverlapping: "kw \<noteq> [] \<Longrightarrow> count_loop s kw = nonoverlapping kw s"
proof (induction s kw rule: count_loop.induct)
  case (1 s substr)
  show ?case
  proof (cases "strings_Index s substr")
    case None
    with "1.prems" show ?thesis
      by (simp add: count_loop.simps [of s] nonoverlapping_no_instance)
  next
    case (Some i)
    with "1.prems" "1.IH" [OF "1.prems" Some "1.prems"] show ?thesis
      by (simp add: count_loop.simps [of s] nonoverlapping_first_instance)
  qed
qed

lemma count_byte_nonoverlapping: "count_list s b = nonoverlapping [b] s"
  by (induction s) auto

lemma strings_Count_occurrences: "strings_Count s kw = occurrences kw s"
proof (cases kw)
  case Nil
  then show ?thesis by (simp add: strings_Count_def occurrences_def)
next
  case (Cons b rest)
  show ?thesis
  proof (cases rest)
    case Nil
    with Cons show ?thesis
      by (simp add: strings_Count_def occurrences_def count_byte_nonoverlapping)
  next
    case (Cons b' rest')
    with \<open>kw = b # rest\<close> have "kw \<noteq> []" "length kw \<noteq> 0" "length kw \<noteq> 1"
      by simp_all
    then show ?thesis
      by (simp add: strings_Count_def occurrences_def count_loop_nonoverlapping)
  qed
qed

lemma nonoverlapping_pos: "kw \<noteq> [] \<Longrightarrow> 0 < nonoverlapping kw s \<longleftrightarrow> sublist kw s"
proof (induction s)
  case Nil
  then show ?case by simp
next
  case (Cons c s)
  then show ?case by (auto simp: sublist_Cons_right)
qed

lemma occurrences_pos: "0 < occurrences kw s \<longleftrightarrow> sublist kw s"
  by (cases "kw = []") (simp_all add: occurrences_def nonoverlapping_pos)


lemma searchFile_spec:
  "searchFile tbl path entry (strings_ToLower tbl keyword) =
     concat (map (\<lambda>(n, line).
         if sublist (strings_ToLower tbl keyword) (strings_ToLower tbl line)
         then [\<lparr>FilePath = path, LineNumber = n, Line = line,
                MatchCount = int (occurrences (strings_ToLower tbl keyword) (strings_ToLower tbl line))\<rparr>]
         else []) (LineIndex entry))"
  unfolding searchFile_def Let_def strings_Count_occurrences occurrences_pos ..

lemma searchFile_MatchCount:
  "r \<in> set (searchFile tbl path entry kw) \<Longrightarrow> 0 < MatchCount r"
  by (auto simp: searchFile_def Let_def split: if_splits)

lemma Search_spec: "Search tbl idx keyword = spec_results tbl (files idx) keyword"
proof -
  let ?kw = "strings_ToLower tbl keyword"
  let ?sent = "concat (map (\<lambda>(path, entry). searchFile tbl path entry ?kw) (files idx))"
  have "\<forall>r \<in> set ?sent. 0 < MatchCount r"
    by (auto dest: searchFile_MatchCount)
  then have "filter (\<lambda>result. MatchCount result > 0) ?sent = ?sent"
    by (simp only: filter_True)
  then show ?thesis
    by (simp add: Search_def GetFiles_def spec_results_def searchFile_spec)
qed




section \<open>The number of runes of a lower-cased string\<close>

lemma second_byte_F4: fixes r :: nat
  assumes "r \<le> 1114111" "r div 262144 = 4" shows "r div 4096 mod 64 \<le> 15"
proof -
  have "r div 262144 = r div 4096 div 64"
    by (simp add: div_mult2_eq [symmetric])
  with assms(2) have q: "r div 4096 div 64 = 4" by simp
  have "r div 4096 \<le> 1114111 div 4096"
    using assms(1) by (rule div_le_mono)
  then have "r div 4096 \<le> 271" by simp
  with q mult_div_mod_eq [of 64 "r div 4096"] show ?thesis by linarith
qed

lemma second_byte_ED: fixes r :: nat
  assumes "r < 55296" "r div 4096 = 13" shows "r div 64 mod 64 \<le> 31"
proof -
  have "r div 4096 = r div 64 div 64"
    by (simp add: div_mult2_eq [symmetric])
  with assms(2) have q: "r div 64 div 64 = 13" by simp
  have "r div 64 \<le> 55296 div 64"
    using assms(1) by (intro div_le_mono) simp
  then have "r div 64 \<le> 864" by simp
  moreover have "r div 64 \<noteq> 864"
  proof
    assume "r div 64 = 864"
    with mult_div_mod_eq [of 64 r] assms(1) show False by linarith
  qed
  ultimately have "r div 64 \<le> 863" by linarith
  with q mult_div_mod_eq [of 64 "r div 64"] show ?thesis by linarith
qed


lemma runes_ascii: "\<forall>c \<in> set s. of_char c < (0x80::nat) \<Longrightarrow> length (runes s) = length s"
  by (induction s) (auto simp: utf8_DecodeRuneInString_def)

lemma ascii_lower_ascii: "of_char c < (0x80::nat) \<Longrightarrow> of_char (ascii_lower c) < (0x80::nat)"
  by (auto simp: ascii_lower_def)

lemma of_char_byte: "n < 256 \<Longrightarrow> of_char (char_of (n::nat)) = n"
  by simp

lemma runes_encode1:
  fixes r :: nat
  assumes "r \<le> 0x7F"
  shows "length (runes (char_of r # rest)) = Suc (length (runes rest))"
  using assms by (simp add: utf8_DecodeRuneInString_def)

lemma runes_encode2:
  fixes r :: nat
  assumes "0x7F < r" "r \<le> 0x7FF"
  shows "length (runes (char_of (0xC0 + r div 64) # char_of (0x80 + r mod 64) # rest)) = Suc (length (runes rest))"
proof -
  define b0 where "b0 = 0xC0 + r div 64"
  define b1 where "b1 = 0x80 + r mod 64"
  have b0: "b0 < 256" "0xC2 \<le> b0" "b0 < 0xE0"
    using assms by (auto simp: b0_def)
  have b1: "b1 < 256" "0x80 \<le> b1" "b1 \<le> 0xBF"
    by (auto simp: b1_def)
  have "decode_bytes (b0 # b1 # map of_char rest) = ((b0 mod 32) * 64 + b1 mod 64, 2)"
    using b0 b1 by (simp add: accept_lo_def accept_hi_def)
  then show ?thesis
    using b0(1) b1(1) unfolding b0_def [symmetric] b1_def [symmetric]
    by (simp add: utf8_DecodeRuneInString_def of_char_byte del: of_char_of decode_bytes.simps)
qed

lemma runes_encode3:
  fixes r :: nat
  assumes "0x7FF < r" "r \<le> 0xFFFF" "\<not> (0xD800 \<le> r \<and> r \<le> 0xDFFF)"
  shows "length (runes (char_of (0xE0 + r div 4096) # char_of (0x80 + (r div 64) mod 64) #
           char_of (0x80 + r mod 64) # rest)) = Suc (length (runes rest))"
proof -
  define b0 where "b0 = 0xE0 + r div 4096"
  define b1 where "b1 = 0x80 + (r div 64) mod 64"
  define b2 where "b2 = 0x80 + r mod 64"
  have b0: "b0 < 256" "0xE0 \<le> b0" "b0 < 0xF0"
    using assms by (auto simp: b0_def)
  have b1: "b1 < 256" "accept_lo b0 \<le> b1" "b1 \<le> accept_hi b0"
    using assms second_byte_ED [of r] by (auto simp: b0_def b1_def accept_lo_def accept_hi_def)
  have b2: "b2 < 256" "contb b2"
    by (auto simp: b2_def contb_def)
  have "decode_bytes (b0 # b1 # b2 # map of_char rest) =
          ((b0 mod 16) * 4096 + (b1 mod 64) * 64 + b2 mod 64, 3)"
    using b0 b1 b2 by simp
  then show ?thesis
    using b0(1) b1(1) b2(1) unfolding b0_def [symmetric] b1_def [symmetric] b2_def [symmetric]
    by (simp add: utf8_DecodeRuneInString_def of_char_byte del: of_char_of decode_bytes.simps)
qed

lemma runes_encode4:
  fixes r :: nat
  assumes "0xFFFF < r" "r \<le> 0x10FFFF"
  shows "length (runes (char_of (0xF0 + r div 262144) # char_of (0x80 + (r div 4096) mod 64) #
           char_of (0x80 + (r div 64) mod 64) # char_of (0x80 + r mod 64) # rest)) = Suc (length (runes rest))"
proof -
  define b0 where "b0 = 0xF0 + r div 262144"
  define b1 where "b1 = 0x80 + (r div 4096) mod 64"
  define b2 where "b2 = 0x80 + (r div 64) mod 64"
  define b3 where "b3 = 0x80 + r mod 64"
  have b0: "b0 < 256" "0xF0 \<le> b0" "b0 < 0xF5"
    using assms by (auto simp: b0_def)
  have b1: "b1 < 256" "accept_lo b0 \<le> b1" "b1 \<le> accept_hi b0"
    using assms second_byte_F4 [of r] by (auto simp: b0_def b1_def accept_lo_def accept_hi_def)
  have b2: "b2 < 256" "contb b2"
    by (auto simp: b2_def contb_def)
  have b3: "b3 < 256" "contb b3"
    by (auto simp: b3_def contb_def)
  have "decode_bytes (b0 # b1 # b2 # b3 # map of_char rest) =
          ((b0 mod 8) * 262144 + (b1 mod 64) * 4096 + (b2 mod 64) * 64 + b3 mod 64, 4)"
    using b0 b1 b2 b3 by simp
  then show ?thesis
    using b0(1) b1(1) b2(1) b3(1)
    unfolding b0_def [symmetric] b1_def [symmetric] b2_def [symmetric] b3_def [symmetric]
    by (simp add: utf8_DecodeRuneInString_def of_char_byte del: of_char_of decode_bytes.simps)
qed

lemma runes_encodeErr:
  "length (runes (char_of (0xEF::nat) # char_of (0xBF::nat) # char_of (0xBD::nat) # rest)) = Suc (length (runes rest))"
  by (simp add: utf8_DecodeRuneInString_def accept_lo_def accept_hi_def contb_def)

lemma runes_EncodeRune: "length (runes (utf8_EncodeRune r @ rest)) = Suc (length (runes rest))"
  unfolding utf8_EncodeRune_def MaxRune_def
  using runes_encode1 [of r rest] runes_encode2 [of r rest] runes_encode3 [of r rest]
    runes_encode4 [of r rest] runes_encodeErr [of rest]
  by (simp del: runes.simps)


lemma runes_concat_EncodeRune:
  "length (runes (concat (map utf8_EncodeRune rs))) = length rs"
proof (induction rs)
  case Nil
  show ?case by simp
next
  case (Cons r rs)
  then show ?case by (simp add: runes_EncodeRune del: runes.simps)
qed

lemma strings_Map_rune_count:
  assumes "\<forall>c. 0 \<le> mapping c"
  shows "utf8_RuneCountInString (strings_Map mapping s) = utf8_RuneCountInString s"
proof -
  have "strings_Map mapping s = concat (map utf8_EncodeRune (map (\<lambda>c. nat (mapping c)) (runes s)))"
    using assms by (simp add: strings_Map_def comp_def)
  then show ?thesis
    using runes_concat_EncodeRune [of "map (\<lambda>c. nat (mapping c)) (runes s)"]
    by (simp add: utf8_RuneCountInString_def)
qed

lemma unicode_ToLower_nonneg: "\<forall>r. 0 \<le> tbl r \<Longrightarrow> 0 \<le> unicode_ToLower tbl r"
  by (simp add: unicode_ToLower_def)

lemma strings_ToLower_rune_count:
  assumes "\<forall>r. 0 \<le> tbl r"
  shows "utf8_RuneCountInString (strings_ToLower tbl s) = utf8_RuneCountInString s"
proof (cases "\<forall>c \<in> set s. of_char c < (0x80::nat)")
  case True
  then have "\<forall>c \<in> set (map ascii_lower s). of_char c < (0x80::nat)"
    by (auto simp: ascii_lower_ascii)
  then have "length (runes (map ascii_lower s)) = length s"
    using runes_ascii [of "map ascii_lower s"] by simp
  with True show ?thesis
    by (simp add: strings_ToLower_def utf8_RuneCountInString_def runes_ascii)
next
  case False
  have "\<forall>c. 0 \<le> unicode_ToLower tbl c"
    using assms by (simp add: unicode_ToLower_nonneg)
  then have "utf8_RuneCountInString (strings_Map (unicode_ToLower tbl) s) = utf8_RuneCountInString s"
    by (rule strings_Map_rune_count)
  with False show ?thesis
    unfolding strings_ToLower_def by (simp only: if_False)
qed

lemma strings_ToLower_empty: "strings_ToLower tbl [] = []"
  by (simp add: strings_ToLower_def)


section \<open>Search with the empty keyword\<close>

definition every_line :: "(string \<times> FileEntry) list \<Rightarrow> SearchResult list" where
  "every_line store =
     concat (map (\<lambda>(path, entry).
       map (\<lambda>(n, line). \<lparr>FilePath = path, LineNumber = n, Line = line,
                          MatchCount = int (utf8_RuneCountInString line) + 1\<rparr>) (LineIndex entry)) store)"

lemma spec_results_empty_keyword:
  assumes "\<forall>r. 0 \<le> tbl r"
  shows "spec_results tbl store [] = every_line store"
proof -
  have inner: "concat (map (\<lambda>(n, line).
         if sublist (strings_ToLower tbl []) (strings_ToLower tbl line)
         then [\<lparr>FilePath = path, LineNumber = n, Line = line,
                MatchCount = int (occurrences (strings_ToLower tbl []) (strings_ToLower tbl line))\<rparr>]
         else []) ls) =
       map (\<lambda>(n, line). \<lparr>FilePath = path, LineNumber = n, Line = line,
                          MatchCount = int (utf8_RuneCountInString line) + 1\<rparr>) ls" for path ls
    using assms
    by (induction ls) (auto simp: strings_ToLower_empty occurrences_def strings_ToLower_rune_count)
  show ?thesis
    unfolding spec_results_def every_line_def by (simp only: inner)
qed

lemma every_line_empty: "every_line store = [] \<longleftrightarrow> (\<forall>(path, entry) \<in> set store. LineIndex entry = [])"
  by (induction store) (auto simp: every_line_def)

text \<open>
  Claim C10 (as amended).  For the empty keyword, \<open>Search\<close> returns one result for
  every line of every file record, with match count the number of UTF-8 runes of the
  line plus one (the case tables never give a negative rune), so it returns no result
  exactly when no file record of the index has a line.  A record without lines is what
  scanning an empty file stores, so the index can be non-empty and the result empty.
\<close>

theorem Search_empty_keyword:
  assumes "\<forall>r. 0 \<le> tbl r"
  shows "Search tbl idx [] = every_line (files idx) \<and>
         (Search tbl idx [] = [] \<longleftrightarrow> (\<forall>(path, entry) \<in> set (files idx). LineIndex entry = []))"
  using assms by (simp add: Search_spec spec_results_empty_keyword every_line_empty)

theorem Search_empty_keyword_no_lines_counterexample:
  "files \<lparr>files = [(''/a.txt'', \<lparr>Path = ''/a.txt'', LineIndex = [], Modified = 0\<rparr>)],
          workers = 1, indexed = 1, skipped = 0\<rparr> \<noteq> [] \<and>
   Search int \<lparr>files = [(''/a.txt'', \<lparr>Path = ''/a.txt'', LineIndex = [], Modified = 0\<rparr>)],
               workers = 1, indexed = 1, skipped = 0\<rparr> [] = []"
  by (simp add: Search_def GetFiles_def searchFile_def)

theorem Search_empty_keyword_witness:
  "(\<forall>r. 0 \<le> int r) \<and>
   Search int \<lparr>files = [(''/a.txt'', \<lparr>Path = ''/a.txt'', LineIndex = [(1, ''Hi''), (2, [])], Modified = 0\<rparr>)],
               workers = 1, indexed = 1, skipped = 0\<rparr> []
   = [\<lparr>FilePath = ''/a.txt'', LineNumber = 1, Line = ''Hi'', MatchCount = 3\<rparr>,
      \<lparr>FilePath = ''/a.txt'', LineNumber = 2, Line = [], MatchCount = 1\<rparr>]"
  using Search_empty_keyword [of int "\<lparr>files = [(''/a.txt'', \<lparr>Path = ''/a.txt'', LineIndex = [(1, ''Hi''), (2, [])], Modified = 0\<rparr>)], workers = 1, indexed = 1, skipped = 0\<rparr>"]
  by (simp add: every_line_def utf8_RuneCountInString_def utf8_DecodeRuneInString_def)


section \<open>Files, errors and the line scanner\<close>

text \<open>
  Errors are values.  \<open>Errorf msg err\<close> is \<open>fmt.Errorf(msg + ": %w", err)\<close>;
  \<open>ErrNoProgress\<close> is the scanner's panic after too many empty tokens;
  \<open>ErrorfCount n\<close> is the second variant's "encountered n errors during indexing".
\<close>

datatype error =
    ErrNotExist
  | ErrPermission
  | ErrIO
  | ErrTooLong
  | ErrSyntax
  | ErrAdvanceTooFar
  | ErrNoProgress
  | SkipDir
  | SkipAll
  | Errorf string error
  | ErrorfCount nat

definition newline :: char where
  "newline = CHR 0x0A"

fun bytes_IndexByte :: "string \<Rightarrow> char \<Rightarrow> nat option" where
  "bytes_IndexByte [] c = None"
| "bytes_IndexByte (b # bs) c = (if b = c then Some 0 else map_option Suc (bytes_IndexByte bs c))"

subsection \<open>bufio.Scanner\<close>

text \<open>
  A split function gets the unread bytes and whether the input has ended, and returns how
  far to advance and the token, if it found one.  The scanner can hold \<open>cap\<close> bytes:
  \<open>scan_buf\<close> offers the split function what fits (both split functions below find the
  same token in any prefix that holds its line feed), fails with \<open>ErrTooLong\<close> when the
  buffer is full and holds no token, and hands over to \<open>scan_eof\<close> once the input has
  ended.  The tokens are those \<open>Scan\<close> returned before it stopped.
\<close>

type_synonym SplitFunc = "string \<Rightarrow> bool \<Rightarrow> nat \<times> string option"

function scan_eof :: "SplitFunc \<Rightarrow> string \<Rightarrow> string list \<times> error option" where
  "scan_eof split rest =
     (case split rest True of
        (advance, Some token) \<Rightarrow>
          if length rest < advance then ([], Some ErrAdvanceTooFar)
          else if advance = 0 then ([], Some ErrNoProgress)
          else (case scan_eof split (drop advance rest) of (tokens, err) \<Rightarrow> (token # tokens, err))
      | (advance, None) \<Rightarrow>
          if length rest < advance then ([], Some ErrAdvanceTooFar)
          else if advance = 0 then ([], None)
          else scan_eof split (drop advance rest))"
  by pat_completeness auto
termination
  by (relation "measure (\<lambda>(split, rest). length rest)") auto

function scan_buf :: "SplitFunc \<Rightarrow> nat \<Rightarrow> string \<Rightarrow> string list \<times> error option" where
  "scan_buf split cap rest =
     (let window = take cap rest
      in case (if window = [] then (0, None) else split window False) of
           (advance, Some token) \<Rightarrow>
             if length window < advance then ([], Some ErrAdvanceTooFar)
             else if advance = 0 then ([], Some ErrNoProgress)
             else (case scan_buf split cap (drop advance rest) of
                     (tokens, err) \<Rightarrow> (token # tokens, err))
         | (advance, None) \<Rightarrow>
             if length window < advance then ([], Some ErrAdvanceTooFar)
             else if advance \<noteq> 0 then scan_buf split cap (drop advance rest)
             else if cap \<le> length rest then ([], Some ErrTooLong)
             else scan_eof split rest)"
  by pat_completeness auto
termination
  by (relation "measure (\<lambda>(split, cap, rest). length rest)") (auto split: if_splits)


text \<open>
  An open file: the bytes its reads deliver, the error that ends them (\<open>None\<close> for
  \<open>io.EOF\<close>) and the result of \<open>Stat\<close>.
\<close>

record FileInfo =
  IsDir :: bool
  Size :: int
  ModTime :: int

record File =
  contents :: string
  read_err :: "error option"
  file_Stat :: "error + FileInfo"

text \<open>
  What the operating system answers during one run: \<open>filepath.Abs\<close>, \<open>os.Open\<close>
  and \<open>os.Stat\<close> for every path.
\<close>

record OS =
  filepath_Abs :: "string \<Rightarrow> error + string"
  os_Open :: "string \<Rightarrow> error + File"
  os_Stat :: "string \<Rightarrow> error + FileInfo"

definition Scanner :: "SplitFunc \<Rightarrow> nat \<Rightarrow> File \<Rightarrow> string list \<times> error option" where
  "Scanner split cap file =
     (case scan_buf split cap (contents file) of
        (tokens, Some err) \<Rightarrow> (tokens, Some err)
      | (tokens, None) \<Rightarrow> (tokens, read_err file))"

subsection \<open>The file scanner of the first variant\<close>





subsection \<open>The file scanner of the second variant\<close>

definition MaxScanTokenSize :: nat where
  "MaxScanTokenSize = 64 * 1024"

definition dropCR :: "string \<Rightarrow> string" where
  "dropCR data = (if length data > 0 \<and> last data = CHR 0x0D then butlast data else data)"

definition ScanLines :: SplitFunc where
  \<comment> \<open>\<open>bufio.ScanLines\<close>, the default split function\<close>
  "ScanLines data atEOF =
     (if atEOF \<and> length data = 0 then (0, None)
      else case bytes_IndexByte data newline of
             Some i \<Rightarrow> (i + 1, Some (dropCR (take i data)))
           | None \<Rightarrow> if atEOF then (length data, Some (dropCR data)) else (0, None))"

definition ws_add_line :: "string \<Rightarrow> ws_FileIndex \<times> int \<Rightarrow> ws_FileIndex \<times> int" where
  "ws_add_line text = (\<lambda>(fileIndex, lineNum).
     (fileIndex\<lparr>ws_LineMap := AList.update lineNum text (ws_LineMap fileIndex)\<rparr>, lineNum + 1))"

definition ws_indexFile :: "OS \<Rightarrow> string \<Rightarrow> error + ws_FileIndex" where
  "ws_indexFile os filePath =
     (case os_Open os filePath of
        Inl err \<Rightarrow> Inl err
      | Inr file \<Rightarrow>
     (case file_Stat file of
        Inl err \<Rightarrow> Inl err
      | Inr info \<Rightarrow>
          (case Scanner ScanLines MaxScanTokenSize file of
             (tokens, scanErr) \<Rightarrow>
               let fileIndex = \<lparr>ws_Path = filePath, ws_LineMap = [], ws_Modified = ModTime info\<rparr>;
                   fileIndex = fst (fold ws_add_line tokens (fileIndex, 1))
               in case scanErr of
                    Some err \<Rightarrow> Inl err
                  | None \<Rightarrow> Inr fileIndex)))"

subsection \<open>The lines the specification asks for\<close>



subsection \<open>The scanner returns the segments\<close>





lemma bytes_IndexByte_take_None:
  "bytes_IndexByte s c = None \<Longrightarrow> bytes_IndexByte (take n s) c = None"
proof (induction s arbitrary: n)
  case Nil
  then show ?case by simp
next
  case (Cons b s)
  then show ?case by (cases n) (auto split: if_splits)
qed



declare scan_buf.simps [simp del] scan_eof.simps [simp del]







section \<open>The file scanner and long lines\<close>


lemma bytes_IndexByte_replicate: "b \<noteq> c \<Longrightarrow> bytes_IndexByte (replicate n b) c = None"
  by (induction n) auto


definition long_line_os :: OS where
  "long_line_os =
     \<lparr>filepath_Abs = (\<lambda>path. Inr path),
      os_Open = (\<lambda>path. Inr \<lparr>contents = replicate 16777216 (CHR ''a''), read_err = None,
                              file_Stat = Inr \<lparr>IsDir = False, Size = 16777216, ModTime = 0\<rparr>\<rparr>),
      os_Stat = (\<lambda>path. Inr \<lparr>IsDir = False, Size = 16777216, ModTime = 0\<rparr>)\<rparr>"



lemma ws_indexFile_long_line:
  "ws_indexFile long_line_os ''/big.txt'' = Inl ErrTooLong"
proof -
  have "ScanLines (replicate 16777216 (CHR ''a'')) False = (0, None)"
    by (simp add: ScanLines_def bytes_IndexByte_replicate newline_def)
  moreover have "ScanLines (replicate 65536 (CHR ''a'')) False = (0, None)"
    by (simp add: ScanLines_def bytes_IndexByte_replicate newline_def)
  ultimately have "scan_buf ScanLines 65536 (replicate 16777216 (CHR ''a'')) = ([], Some ErrTooLong)"
    by (simp add: scan_buf.simps [of _ _ "replicate 16777216 (CHR ''a'')"])
  then show ?thesis
    by (simp add: ws_indexFile_def long_line_os_def Scanner_def MaxScanTokenSize_def)
qed





section \<open>Paths (package path/filepath, Unix)\<close>

text \<open>
  \<open>Clean\<close> is written on the elements of the path: empty and \<open>.\<close> elements are dropped,
  a \<open>..\<close> removes the element before it, is dropped at the root and kept at the start
  of a relative path.
\<close>

fun split_on :: "char \<Rightarrow> string \<Rightarrow> string list" where
  "split_on sep [] = [[]]"
| "split_on sep (c # s) =
     (if c = sep then [] # split_on sep s
      else case split_on sep s of [] \<Rightarrow> [[c]] | e # es \<Rightarrow> (c # e) # es)"

fun join_sep :: "string list \<Rightarrow> string" where
  "join_sep [] = []"
| "join_sep [e] = e"
| "join_sep (e # es) = e @ ''/'' @ join_sep es"

definition clean_step :: "bool \<Rightarrow> string \<Rightarrow> string list \<Rightarrow> string list" where
  "clean_step rooted e out =
     (if e = ''..'' then
        (if out \<noteq> [] \<and> last out \<noteq> ''..'' then butlast out
         else if \<not> rooted then out @ [''..''] else out)
      else out @ [e])"

definition filepath_Clean :: "string \<Rightarrow> string" where
  "filepath_Clean path =
     (if path = [] then ''.''
      else let rooted = (hd path = CHR ''/'');
               elems = filter (\<lambda>e. e \<noteq> [] \<and> e \<noteq> ''.'') (split_on (CHR ''/'') path);
               out = fold (clean_step rooted) elems [];
               cleaned = (if rooted then ''/'' else []) @ join_sep out
           in if cleaned = [] then ''.'' else cleaned)"


definition last_element :: "string \<Rightarrow> string" where
  \<comment> \<open>what follows the last separator\<close>
  "last_element path = rev (takeWhile (\<lambda>c. c \<noteq> CHR ''/'') (rev path))"

definition filepath_Base :: "string \<Rightarrow> string" where
  "filepath_Base path =
     (if path = [] then ''.''
      else let path = rev (dropWhile (\<lambda>c. c = CHR ''/'') (rev path));
               path = last_element path
           in if path = [] then ''/'' else path)"

definition filepath_Ext :: "string \<Rightarrow> string" where
  "filepath_Ext path =
     (let e = last_element path
      in if CHR ''.'' \<in> set e then CHR ''.'' # rev (takeWhile (\<lambda>c. c \<noteq> CHR ''.'') (rev e)) else [])"

definition filepath_Dir :: "string \<Rightarrow> string" where
  "filepath_Dir path = filepath_Clean (rev (dropWhile (\<lambda>c. c \<noteq> CHR ''/'') (rev path)))"

definition strings_HasPrefix :: "string \<Rightarrow> string \<Rightarrow> bool" where
  "strings_HasPrefix s pre = prefix pre s"


section \<open>The classifier\<close>

definition binaryExts :: "string list" where
  "binaryExts =
     [''.exe'', ''.dll'', ''.so'', ''.dylib'', ''.bin'', ''.obj'', ''.o'', ''.a'',
      ''.lib'', ''.pyc'', ''.class'', ''.jar'', ''.war'', ''.ear'', ''.zip'', ''.tar'',
      ''.gz'', ''.7z'', ''.rar'', ''.pdf'', ''.jpg'', ''.jpeg'', ''.png'', ''.gif'',
      ''.bmp'', ''.ico'', ''.mp3'', ''.mp4'', ''.avi'', ''.mov'', ''.wmv'', ''.flv'']"

text \<open>First variant: \<open>isBinaryFile\<close>; the other two rules stand in the walk's callback.\<close>

definition isBinaryFile :: "(nat \<Rightarrow> int) \<Rightarrow> string \<Rightarrow> bool" where
  "isBinaryFile tbl path = (strings_ToLower tbl (filepath_Ext path) \<in> set binaryExts)"

text \<open>Second variant: \<open>ShouldIndexFile\<close> and \<open>IsTextFile\<close>.\<close>

definition DefaultExcludedDirs :: "string list" where
  "DefaultExcludedDirs = [''.git'', ''.svn'', ''node_modules'', ''vendor'', ''bin'', ''obj'']"

definition DefaultExcludedExtensions :: "string list" where
  "DefaultExcludedExtensions =
     [''.exe'', ''.dll'', ''.so'', ''.dylib'', ''.o'', ''.a'', ''.out'',
      ''.jpg'', ''.jpeg'', ''.png'', ''.gif'', ''.bmp'', ''.ico'', ''.svg'',
      ''.mp3'', ''.mp4'', ''.avi'', ''.mkv'', ''.mov'', ''.flv'', ''.wmv'',
      ''.zip'', ''.tar'', ''.gz'', ''.rar'', ''.7z'', ''.jar'', ''.war'',
      ''.class'', ''.pyc'', ''.pyo'', ''.obj'']"

definition ShouldIndexFile :: "(nat \<Rightarrow> int) \<Rightarrow> OS \<Rightarrow> string \<Rightarrow> bool" where
  "ShouldIndexFile tbl os path =
     (case os_Stat os path of
        Inl err \<Rightarrow> False
      | Inr info \<Rightarrow>
          if IsDir info then False
          else if Size info > 10 * 1024 * 1024 then False
          else if list_ex (\<lambda>excludedDir. strings_Contains (filepath_Dir path) excludedDir)
                    DefaultExcludedDirs then False
          else if list_ex (\<lambda>excludedExt. strings_ToLower tbl (filepath_Ext path) = excludedExt)
                    DefaultExcludedExtensions then False
          else True)"

definition textExtensions :: "string list" where
  "textExtensions =
     [''.txt'', ''.md'', ''.json'', ''.xml'', ''.html'', ''.htm'', ''.css'', ''.js'',
      ''.go'', ''.py'', ''.java'', ''.c'', ''.cpp'', ''.h'', ''.hpp'', ''.cs'', ''.php'',
      ''.rb'', ''.pl'', ''.sh'', ''.bat'', ''.ps1'', ''.yaml'', ''.yml'', ''.toml'',
      ''.ini'', ''.cfg'', ''.conf'', ''.log'', ''.csv'', ''.tsv'']"

definition IsTextFile :: "(nat \<Rightarrow> int) \<Rightarrow> string \<Rightarrow> bool" where
  "IsTextFile tbl path =
     list_ex (\<lambda>textExt. strings_ToLower tbl (filepath_Ext path) = textExt) textExtensions"

section \<open>Walking the tree (filepath.Walk)\<close>


datatype visit = Entry FileInfo | Failed error

type_synonym 's WalkFunc = "'s \<Rightarrow> string \<Rightarrow> visit \<Rightarrow> 's \<times> error option"






section \<open>The indexing engine of the first variant\<close>

definition walkFn :: "(nat \<Rightarrow> int) \<Rightarrow> (Index \<times> string list) WalkFunc" where
  \<comment> \<open>the callback of \<open>IndexDirectory\<close>; the state is the index (for its counter of
      skipped files) and the paths sent to the workers so far\<close>
  "walkFn tbl = (\<lambda>(idx, paths) path v.
     case v of
       Failed err \<Rightarrow> ((idx, paths), None)
     | Entry info \<Rightarrow>
         if \<not> IsDir info then
           (if isBinaryFile tbl path \<or> strings_HasPrefix (filepath_Base path) ''.''
            then ((idx\<lparr>skipped := skipped idx + 1\<rparr>, paths), None)
            else if Size info > 100 * 1024 * 1024
            then ((idx\<lparr>skipped := skipped idx + 1\<rparr>, paths), None)
            else ((idx, paths @ [path]), None))
         else ((idx, paths), None))"



section \<open>The indexing engine of the second variant\<close>

definition ws_walkFn :: "(nat \<Rightarrow> int) \<Rightarrow> OS \<Rightarrow> (string list) WalkFunc" where
  "ws_walkFn tbl os = (\<lambda>paths path v.
     case v of
       Failed err \<Rightarrow> (paths, Some err)
     | Entry info \<Rightarrow>
         if IsDir info then (paths, None)
         else if ShouldIndexFile tbl os path \<and> IsTextFile tbl path then (paths @ [path], None)
         else (paths, None))"




section \<open>An indexing run replaces the store\<close>




















section \<open>Traversal errors\<close>








section \<open>The rules of the classifier\<close>

lemma list_ex_sublist:
  "excludedDir \<in> set dirs \<Longrightarrow> sublist excludedDir d \<Longrightarrow>
   list_ex (\<lambda>excludedDir. strings_Contains d excludedDir) dirs"
  by (auto simp: list_ex_iff strings_Contains_sublist)

text \<open>
  Claim C9 (as amended).  Each variant has one of the two rules.  The first variant's
  classifier rejects every file whose name starts with \<open>.\<close> (the file is counted as
  skipped and not sent to a worker) and has no rule on directories.  The second variant's
  classifier rejects every file whose directory path contains a configured excluded
  directory name as a substring, and has no rule on hidden files.
\<close>

theorem classifier_rules:
  "(strings_HasPrefix (filepath_Base path) ''.'' \<and> \<not> IsDir info \<longrightarrow>
      walkFn tbl (idx, paths) path (Entry info) = ((idx\<lparr>skipped := skipped idx + 1\<rparr>, paths), None)) \<and>
   (excludedDir \<in> set DefaultExcludedDirs \<and> sublist excludedDir (filepath_Dir path') \<longrightarrow>
      \<not> ShouldIndexFile tbl os path' \<and>
      ws_walkFn tbl os paths' path' (Entry info') = (paths', None))"
proof (intro conjI impI)
  assume "strings_HasPrefix (filepath_Base path) ''.'' \<and> \<not> IsDir info"
  then show "walkFn tbl (idx, paths) path (Entry info) =
               ((idx\<lparr>skipped := skipped idx + 1\<rparr>, paths), None)"
    by (simp add: walkFn_def)
next
  assume "excludedDir \<in> set DefaultExcludedDirs \<and> sublist excludedDir (filepath_Dir path')"
  then have "list_ex (\<lambda>excludedDir. strings_Contains (filepath_Dir path') excludedDir) DefaultExcludedDirs"
    using list_ex_sublist [of excludedDir DefaultExcludedDirs "filepath_Dir path'"] by blast
  then show no: "\<not> ShouldIndexFile tbl os path'"
    by (simp add: ShouldIndexFile_def split: sum.splits)
  then show "ws_walkFn tbl os paths' path' (Entry info') = (paths', None)"
    by (simp add: ws_walkFn_def)
qed

lemma Dir_hidden: "filepath_Dir ''/proj/.hidden.txt'' = ''/proj''"
  by (simp add: filepath_Dir_def filepath_Clean_def clean_step_def)

lemma Ext_hidden: "strings_ToLower int (filepath_Ext ''/proj/.hidden.txt'') = ''.txt''"
  by (simp add: filepath_Ext_def last_element_def strings_ToLower_def ascii_lower_def)

lemma Ext_module: "strings_ToLower int (filepath_Ext ''/proj/node_modules/x.js'') = ''.js''"
  by (simp add: filepath_Ext_def last_element_def strings_ToLower_def ascii_lower_def)

lemma Base_module: "filepath_Base ''/proj/node_modules/x.js'' = ''x.js''"
  by (simp add: filepath_Base_def last_element_def)

definition small_file_os :: OS where
  "small_file_os =
     \<lparr>filepath_Abs = (\<lambda>path. Inr path), os_Open = (\<lambda>path. Inl ErrNotExist),
      os_Stat = (\<lambda>path. Inr \<lparr>IsDir = False, Size = 20, ModTime = 0\<rparr>)\<rparr>"

text \<open>
  The first variant sends a file under \<open>node_modules\<close> to the workers; the second
  variant sends a hidden text file.
\<close>

theorem classifier_rules_counterexample:
  "walkFn int (NewIndex 1, []) ''/proj/node_modules/x.js''
      (Entry \<lparr>IsDir = False, Size = 20, ModTime = 0\<rparr>) =
     ((NewIndex 1, [''/proj/node_modules/x.js'']), None) \<and>
   ws_walkFn int small_file_os [] ''/proj/.hidden.txt''
      (Entry \<lparr>IsDir = False, Size = 20, ModTime = 0\<rparr>) = ([''/proj/.hidden.txt''], None)"
proof
  show "walkFn int (NewIndex 1, []) ''/proj/node_modules/x.js''
      (Entry \<lparr>IsDir = False, Size = 20, ModTime = 0\<rparr>) =
     ((NewIndex 1, [''/proj/node_modules/x.js'']), None)"
    by (simp add: walkFn_def isBinaryFile_def Ext_module Base_module binaryExts_def
        strings_HasPrefix_def)
next
  have "ShouldIndexFile int small_file_os ''/proj/.hidden.txt''"
    by (simp add: ShouldIndexFile_def small_file_os_def Dir_hidden Ext_hidden
        DefaultExcludedDirs_def DefaultExcludedExtensions_def strings_Contains_def)
  moreover have "IsTextFile int ''/proj/.hidden.txt''"
    by (simp add: IsTextFile_def Ext_hidden textExtensions_def)
  ultimately show "ws_walkFn int small_file_os [] ''/proj/.hidden.txt''
      (Entry \<lparr>IsDir = False, Size = 20, ModTime = 0\<rparr>) = ([''/proj/.hidden.txt''], None)"
    by (simp add: ws_walkFn_def)
qed

lemma Base_hidden: "filepath_Base ''/proj/.hidden.txt'' = ''.hidden.txt''"
  by (simp add: filepath_Base_def last_element_def)

lemma Dir_module: "filepath_Dir ''/proj/node_modules/x.js'' = ''/proj/node_modules''"
  by (simp add: filepath_Dir_def filepath_Clean_def clean_step_def)

theorem classifier_rules_witness:
  "strings_HasPrefix (filepath_Base ''/proj/.hidden.txt'') ''.'' \<and>
   walkFn int (NewIndex 1, []) ''/proj/.hidden.txt'' (Entry \<lparr>IsDir = False, Size = 20, ModTime = 0\<rparr>) =
     ((NewIndex 1\<lparr>skipped := 1\<rparr>, []), None) \<and>
   ''node_modules'' \<in> set DefaultExcludedDirs \<and>
   sublist ''node_modules'' (filepath_Dir ''/proj/node_modules/x.js'') \<and>
   ws_walkFn int small_file_os [] ''/proj/node_modules/x.js''
      (Entry \<lparr>IsDir = False, Size = 20, ModTime = 0\<rparr>) = ([], None)"
proof -
  have sub: "sublist ''node_modules'' ''/proj/node_modules''"
    by (rule sublist_append_leftI [of "''node_modules''" "''/proj/''", simplified])
  from classifier_rules [of "''/proj/.hidden.txt''" "\<lparr>IsDir = False, Size = 20, ModTime = 0\<rparr>"
      int "NewIndex 1" "[]" "''node_modules''" "''/proj/node_modules/x.js''" small_file_os "[]"
      "\<lparr>IsDir = False, Size = 20, ModTime = 0\<rparr>"] sub
  show ?thesis
    by (simp add: Base_hidden Dir_module strings_HasPrefix_def DefaultExcludedDirs_def NewIndex_def)
qed



section \<open>The cache file as JSON (package encoding/json)\<close>

text \<open>
  \<open>json.MarshalIndent(data, "", "  ")\<close> of a map of file entries.  The document is a
  list of tokens, each with the white space written before it; the keys of a map are
  written in the order of their strings, and a string is written coerced to valid UTF-8:
  a byte that is not part of a well-formed sequence becomes \<open>\ufffd\<close>.
\<close>

definition dquote :: char where "dquote = CHR 0x22"
definition backslash :: char where "backslash = CHR 0x5C"

definition hex :: "nat \<Rightarrow> char" where
  "hex n = ''0123456789abcdef'' ! (n mod 16)"

definition htmlSafe :: "char \<Rightarrow> bool" where
  "htmlSafe c = ((0x20::nat) \<le> of_char c \<and> c \<noteq> dquote \<and> c \<noteq> backslash \<and>
                 c \<noteq> CHR ''&'' \<and> c \<noteq> CHR ''<'' \<and> c \<noteq> CHR ''>'')"

definition escape_byte :: "char \<Rightarrow> string" where
  "escape_byte c =
     (if c = backslash \<or> c = dquote then [backslash, c]
      else if c = CHR 0x08 then [backslash, CHR ''b'']
      else if c = CHR 0x0C then [backslash, CHR ''f'']
      else if c = CHR 0x0A then [backslash, CHR ''n'']
      else if c = CHR 0x0D then [backslash, CHR ''r'']
      else if c = CHR 0x09 then [backslash, CHR ''t'']
      else [backslash, CHR ''u'', CHR ''0'', CHR ''0'', hex (of_char c div 16), hex (of_char c mod 16)])"

function quote_body :: "string \<Rightarrow> string" where
  \<comment> \<open>\<open>appendString\<close> with \<open>escapeHTML\<close>: what stands between the quotes\<close>
  "quote_body [] = []"
| "quote_body (c # s) =
     (if of_char c < (0x80::nat) then
        (if htmlSafe c then [c] else escape_byte c) @ quote_body s
      else case utf8_DecodeRuneInString (c # s) of
             (r, width) \<Rightarrow>
               if r = RuneError \<and> width = 1 then
                 [backslash, CHR ''u'', CHR ''f'', CHR ''f'', CHR ''f'', CHR ''d''] @ quote_body s
               else if r = 0x2028 \<or> r = 0x2029 then
                 [backslash, CHR ''u'', CHR ''2'', CHR ''0'', CHR ''2'', hex (r mod 16)] @
                 quote_body (drop (width - 1) s)
               else take width (c # s) @ quote_body (drop (width - 1) s))"
  by pat_completeness auto
termination
  by (relation "measure length") auto

definition appendString :: "string \<Rightarrow> string" where
  "appendString src = dquote # quote_body src @ [dquote]"

function decimal :: "nat \<Rightarrow> string" where
  "decimal n =
     (if n < 10 then [''0123456789'' ! n]
      else decimal (n div 10) @ [''0123456789'' ! (n mod 10)])"
  by pat_completeness auto
termination
  by (relation "measure id") auto

definition FormatInt :: "int \<Rightarrow> string" where
  "FormatInt i = (if i < 0 then CHR ''-'' # decimal (nat (- i)) else decimal (nat i))"

datatype token = LBrace | RBrace | Colon | Comma | TStr string | TNum int

fun render_token :: "token \<Rightarrow> string" where
  "render_token LBrace = ''{''"
| "render_token RBrace = ''}''"
| "render_token Colon = '':''"
| "render_token Comma = '',''"
| "render_token (TStr s) = appendString s"
| "render_token (TNum i) = FormatInt i"

type_synonym layout = "(string \<times> token) list"

definition newline_indent :: "nat \<Rightarrow> string" where
  "newline_indent depth = newline # replicate (2 * depth) (CHR '' '')"

fun lead :: "string \<Rightarrow> layout \<Rightarrow> layout" where
  "lead ws [] = []"
| "lead ws ((_, t) # rest) = (ws, t) # rest"

fun members :: "nat \<Rightarrow> (string \<times> layout) list \<Rightarrow> layout" where
  "members depth [] = []"
| "members depth [(k, v)] = (newline_indent depth, TStr k) # ([], Colon) # lead '' '' v"
| "members depth ((k, v) # ms) =
     (newline_indent depth, TStr k) # ([], Colon) # lead '' '' v @ ([], Comma) # members depth ms"

definition object :: "nat \<Rightarrow> (string \<times> layout) list \<Rightarrow> layout" where
  "object depth ms =
     (if ms = [] then [([], LBrace), ([], RBrace)]
      else ([], LBrace) # members depth ms @ [(newline_indent (depth - 1), RBrace)])"

definition encode_lines :: "nat \<Rightarrow> (int \<times> string) list \<Rightarrow> layout" where
  "encode_lines depth lines =
     object depth (map (\<lambda>(n, text). (FormatInt n, [([], TStr text)]))
                    (sort_key (\<lambda>(n, text). FormatInt n) lines))"

definition encode_entry :: "nat \<Rightarrow> FileEntry \<Rightarrow> layout" where
  "encode_entry depth entry =
     object depth
       [(''path'', [([], TStr (Path entry))]),
        (''line_index'', encode_lines (depth + 1) (LineIndex entry)),
        (''modified'', [([], TNum (Modified entry))])]"

definition encode_files :: "(string \<times> FileEntry) list \<Rightarrow> layout" where
  "encode_files data =
     object 1 (map (\<lambda>(path, entry). (path, encode_entry 2 entry)) (sort_key fst data))"

definition render :: "layout \<Rightarrow> string" where
  "render l = concat (map (\<lambda>(ws, t). ws @ render_token t) l)"

definition json_MarshalIndent :: "(string \<times> FileEntry) list \<Rightarrow> string" where
  "json_MarshalIndent data = render (encode_files data)"


section \<open>The cache\<close>

text \<open>
  The cache file is what \<open>os.ReadFile\<close> finds at its path: the bytes, or the error
  (\<open>ErrNotExist\<close> when there is no file).  A save can fail where the operating system
  lets it fail: creating the directory, opening the file (which truncates it), or writing,
  after some of the bytes.  \<open>os.WriteFile\<close> truncates the file and then writes it.
\<close>

type_synonym disk = "error + string"

datatype fault = NoFault | MkdirFails error | OpenFails error | WriteFails nat error

definition os_MkdirAll :: "fault \<Rightarrow> error option" where
  "os_MkdirAll fault = (case fault of MkdirFails err \<Rightarrow> Some err | _ \<Rightarrow> None)"

definition os_WriteFile :: "fault \<Rightarrow> disk \<Rightarrow> string \<Rightarrow> disk \<times> error option" where
  "os_WriteFile fault d bytes =
     (case fault of
        OpenFails err \<Rightarrow> (d, Some err)
      | WriteFails n err \<Rightarrow> (Inr (take n bytes), Some err)
      | _ \<Rightarrow> (Inr bytes, None))"

type_synonym marshal = "(string \<times> FileEntry) list \<Rightarrow> error + string"
type_synonym unmarshal = "string \<Rightarrow> error + (string \<times> FileEntry) list"

definition Save :: "marshal \<Rightarrow> fault \<Rightarrow> disk \<Rightarrow> Index \<Rightarrow> disk \<times> error option" where
  \<comment> \<open>\<open>Cache.Save\<close>; \<open>marshal\<close> is \<open>json.MarshalIndent(data, "", "  ")\<close>\<close>
  "Save marshal fault d idx =
     (let data = GetFiles idx
      in case os_MkdirAll fault of
           Some err \<Rightarrow> (d, Some err)
         | None \<Rightarrow>
             (case marshal data of
                Inl err \<Rightarrow> (d, Some err)
              | Inr jsonData \<Rightarrow> os_WriteFile fault d jsonData))"

definition Load :: "unmarshal \<Rightarrow> disk \<Rightarrow> error + (string \<times> FileEntry) list" where
  \<comment> \<open>\<open>Cache.Load\<close>; \<open>unmarshal\<close> is \<open>json.Unmarshal\<close> into an empty map\<close>
  "Load unmarshal d =
     (case d of
        Inl err \<Rightarrow> if err = ErrNotExist then Inr [] else Inl err
      | Inr jsonData \<Rightarrow>
          (case unmarshal jsonData of
             Inl err \<Rightarrow> Inl err
           | Inr data \<Rightarrow> Inr data))"

subsection \<open>Loading at start-up (first variant, \<open>main\<close>)\<close>



subsection \<open>The second variant: \<open>SaveIndex\<close> and \<open>LoadIndex\<close>\<close>

type_synonym ws_marshal = "(string \<times> ws_FileIndex) list \<Rightarrow> error + string"
type_synonym ws_unmarshal = "string \<Rightarrow> error + (string \<times> ws_FileIndex) list"

definition ws_SaveIndex :: "ws_marshal \<Rightarrow> fault \<Rightarrow> disk \<Rightarrow> (string \<times> ws_FileIndex) list \<Rightarrow> disk \<times> error option" where
  \<comment> \<open>\<open>os.Create\<close> truncates the file, then \<open>Encode\<close> marshals and writes\<close>
  "ws_SaveIndex marshal fault d Files =
     (case fault of
        OpenFails err \<Rightarrow> (d, Some err)
      | _ \<Rightarrow>
          (case marshal Files of
             Inl err \<Rightarrow> (Inr [], Some err)
           | Inr bytes \<Rightarrow>
               (case fault of
                  WriteFails n err \<Rightarrow> (Inr (take n bytes), Some err)
                | _ \<Rightarrow> (Inr bytes, None))))"

definition ws_LoadIndex ::
  "ws_unmarshal \<Rightarrow> disk \<Rightarrow> (string \<times> ws_FileIndex) list \<Rightarrow> (string \<times> ws_FileIndex) list \<times> error option" where
  \<comment> \<open>\<open>Decode\<close> adds the decoded entries to the map of the index\<close>
  "ws_LoadIndex unmarshal d Files =
     (case d of
        Inl err \<Rightarrow> (Files, Some err)
      | Inr bytes \<Rightarrow>
          (case unmarshal bytes of
             Inl err \<Rightarrow> (Files, Some err)
           | Inr decoded \<Rightarrow> (fold (\<lambda>(path, fileIndex). AList.update path fileIndex) decoded Files, None)))"


subsection \<open>Decoding\<close>

text \<open>
  \<open>json.Unmarshal\<close> for the documents \<open>Save\<close> writes: an object of file entries, each
  an object with the fields \<open>path\<close>, \<open>line_index\<close> and \<open>modified\<close> in this order.  Any
  other text is a syntax error here; the library also accepts documents of other shapes
  (fields in another order, unknown fields, \<open>null\<close>), which \<open>Save\<close> never writes.
\<close>

definition is_space :: "char \<Rightarrow> bool" where
  "is_space c = (c = CHR '' '' \<or> c = CHR 0x09 \<or> c = CHR 0x0D \<or> c = CHR 0x0A)"

definition is_digit :: "char \<Rightarrow> bool" where
  "is_digit c = ((48::nat) \<le> of_char c \<and> of_char c \<le> (57::nat))"

definition digit_value :: "char \<Rightarrow> nat" where
  "digit_value c = of_char c - 48"

definition hex_value :: "char \<Rightarrow> nat option" where
  "hex_value c =
     (let b = of_char c :: nat
      in if 48 \<le> b \<and> b \<le> 57 then Some (b - 48)
         else if 97 \<le> b \<and> b \<le> 102 then Some (b - 87)
         else if 65 \<le> b \<and> b \<le> 70 then Some (b - 55)
         else None)"

fun getu4 :: "string \<Rightarrow> nat option" where
  \<comment> \<open>the four hex digits behind \<open>\u\<close>\<close>
  "getu4 (h1 # h2 # h3 # h4 # s) =
     (case (hex_value h1, hex_value h2, hex_value h3, hex_value h4) of
        (Some a, Some b, Some c, Some d) \<Rightarrow> Some (a * 4096 + b * 256 + c * 16 + d)
      | _ \<Rightarrow> None)"
| "getu4 s = None"

definition IsSurrogate :: "nat \<Rightarrow> bool" where
  "IsSurrogate r = (0xD800 \<le> r \<and> r < 0xE000)"

definition utf16_DecodeRune :: "nat \<Rightarrow> nat \<Rightarrow> nat" where
  "utf16_DecodeRune r1 r2 =
     (if 0xD800 \<le> r1 \<and> r1 < 0xDC00 \<and> 0xDC00 \<le> r2 \<and> r2 < 0xE000
      then (r1 - 0xD800) * 1024 + (r2 - 0xDC00) + 0x10000
      else RuneError)"

function unquote :: "string \<Rightarrow> string option" where
  \<comment> \<open>the value of a string literal, given what stands between its quotes\<close>
  "unquote [] = Some []"
| "unquote (c # s) =
     (if c = backslash then
        (case s of
           [] \<Rightarrow> None
         | e # s' \<Rightarrow>
             if e = dquote \<or> e = backslash \<or> e = CHR ''/'' then map_option ((#) e) (unquote s')
             else if e = CHR ''b'' then map_option ((#) (CHR 0x08)) (unquote s')
             else if e = CHR ''f'' then map_option ((#) (CHR 0x0C)) (unquote s')
             else if e = CHR ''n'' then map_option ((#) (CHR 0x0A)) (unquote s')
             else if e = CHR ''r'' then map_option ((#) (CHR 0x0D)) (unquote s')
             else if e = CHR ''t'' then map_option ((#) (CHR 0x09)) (unquote s')
             else if e = CHR ''u'' then
               (case getu4 s' of
                  None \<Rightarrow> None
                | Some rr \<Rightarrow>
                    if IsSurrogate rr then
                      (case (case drop 4 s' of
                               b # u # s'' \<Rightarrow>
                                 if b = backslash \<and> u = CHR ''u'' then getu4 s'' else None
                             | _ \<Rightarrow> None) of
                         Some rr1 \<Rightarrow>
                           if utf16_DecodeRune rr rr1 \<noteq> RuneError
                           then map_option ((@) (utf8_EncodeRune (utf16_DecodeRune rr rr1)))
                                  (unquote (drop 10 s'))
                           else map_option ((@) (utf8_EncodeRune RuneError)) (unquote (drop 4 s'))
                       | None \<Rightarrow> map_option ((@) (utf8_EncodeRune RuneError)) (unquote (drop 4 s')))
                    else map_option ((@) (utf8_EncodeRune rr)) (unquote (drop 4 s')))
             else None)
      else if c = dquote \<or> of_char c < (0x20::nat) then None
      else if of_char c < (0x80::nat) then map_option ((#) c) (unquote s)
      else case utf8_DecodeRuneInString (c # s) of
             (rr, width) \<Rightarrow> map_option ((@) (utf8_EncodeRune rr)) (unquote (drop (width - 1) s)))"
  by pat_completeness auto
termination
  by (relation "measure length") auto

fun lex_string :: "string \<Rightarrow> (string \<times> string) option" where
  \<comment> \<open>behind an opening quote: what stands before the closing quote, and the rest\<close>
  "lex_string [] = None"
| "lex_string [c] = (if c = dquote then Some ([], []) else None)"
| "lex_string (c # e # s) =
     (if c = dquote then Some ([], e # s)
      else if c = backslash then map_option (\<lambda>(raw, rest). (c # e # raw, rest)) (lex_string s)
      else map_option (\<lambda>(raw, rest). (c # raw, rest)) (lex_string (e # s)))"

fun digits_value :: "nat \<Rightarrow> string \<Rightarrow> nat" where
  "digits_value acc [] = acc"
| "digits_value acc (c # s) = digits_value (acc * 10 + digit_value c) s"

definition int64 :: "int \<Rightarrow> bool" where
  "int64 i = (- (2 ^ 63) \<le> i \<and> i < 2 ^ 63)"

definition lex_number :: "string \<Rightarrow> (int \<times> string) option" where
  \<comment> \<open>a number literal that fits an \<open>int64\<close>: an optional minus sign, then \<open>0\<close> or digits
      that do not start with \<open>0\<close>; a fraction or an exponent does not decode into an integer\<close>
  "lex_number s =
     (let neg = (s \<noteq> [] \<and> hd s = CHR ''-'');
          s = (if neg then tl s else s);
          ds = takeWhile is_digit s;
          rest = dropWhile is_digit s;
          i = (if neg then - int (digits_value 0 ds) else int (digits_value 0 ds))
      in if ds = [] \<or> (length ds > 1 \<and> hd ds = CHR ''0'') then None
         else if rest \<noteq> [] \<and> (hd rest = CHR ''.'' \<or> hd rest = CHR ''e'' \<or> hd rest = CHR ''E'') then None
         else if \<not> int64 i then None
         else Some (i, rest))"

definition ParseInt :: "string \<Rightarrow> int option" where
  \<comment> \<open>\<open>strconv.ParseInt(s, 10, 64)\<close>, for a map key\<close>
  "ParseInt s =
     (let neg = (s \<noteq> [] \<and> hd s = CHR ''-'');
          s = (if s \<noteq> [] \<and> (hd s = CHR ''-'' \<or> hd s = CHR ''+'') then tl s else s);
          i = (if neg then - int (digits_value 0 s) else int (digits_value 0 s))
      in if s = [] \<or> \<not> list_all is_digit s \<or> \<not> int64 i then None else Some i)"


lemma lex_string_shorter: "lex_string s = Some (raw, rest) \<Longrightarrow> length rest < length s"
proof (induction s arbitrary: raw rest rule: lex_string.induct)
  case 1
  then show ?case by simp
next
  case (2 c)
  then show ?case by (simp split: if_splits)
next
  case (3 c e s)
  show ?case
  proof (cases "c = dquote")
    case True
    with "3.prems" show ?thesis by simp
  next
    case False
    show ?thesis
    proof (cases "c = backslash")
      case True
      with False "3.prems" obtain raw' where "lex_string s = Some (raw', rest)"
        by (auto split: if_splits)
      with "3.IH"(1) [OF False True] show ?thesis by fastforce
    next
      case notbs: False
      with False "3.prems" obtain raw' where "lex_string (e # s) = Some (raw', rest)"
        by (auto split: if_splits)
      with "3.IH"(2) [OF False notbs] show ?thesis by fastforce
    qed
  qed
qed

lemma lex_number_shorter: "lex_number s = Some (i, rest) \<Longrightarrow> length rest < length s"
proof -
  assume a: "lex_number s = Some (i, rest)"
  let ?neg = "s \<noteq> [] \<and> hd s = CHR ''-''"
  let ?s = "if ?neg then tl s else s"
  from a have ds: "takeWhile is_digit ?s \<noteq> []" and rest: "rest = dropWhile is_digit ?s"
    by (auto simp: lex_number_def Let_def split: if_splits)
  have "length (takeWhile is_digit ?s) + length (dropWhile is_digit ?s) = length ?s"
    by (metis length_append takeWhile_dropWhile_id)
  with ds rest have "length rest < length ?s"
    by (cases "takeWhile is_digit ?s") auto
  moreover have "length ?s \<le> length s"
    by simp
  ultimately show ?thesis by linarith
qed

function lex :: "string \<Rightarrow> token list option" where
  \<comment> \<open>the tokens of a document; white space between tokens is skipped\<close>
  "lex [] = Some []"
| "lex (c # s) =
     (if is_space c then lex s
      else if c = CHR ''{'' then map_option ((#) LBrace) (lex s)
      else if c = CHR ''}'' then map_option ((#) RBrace) (lex s)
      else if c = CHR '':'' then map_option ((#) Colon) (lex s)
      else if c = CHR '','' then map_option ((#) Comma) (lex s)
      else if c = dquote then
        (case lex_string s of
           None \<Rightarrow> None
         | Some (raw, rest) \<Rightarrow>
             (case unquote raw of
                None \<Rightarrow> None
              | Some v \<Rightarrow> map_option ((#) (TStr v)) (lex rest)))
      else
        (case lex_number (c # s) of
           None \<Rightarrow> None
         | Some (i, rest) \<Rightarrow> map_option ((#) (TNum i)) (lex rest)))"
  by pat_completeness auto
termination
  by (relation "measure length") (auto dest: lex_string_shorter lex_number_shorter)

definition expect :: "token \<Rightarrow> token list \<Rightarrow> token list option" where
  "expect t ts = (case ts of t' # rest \<Rightarrow> if t' = t then Some rest else None | [] \<Rightarrow> None)"

definition string_token :: "token list \<Rightarrow> (string \<times> token list) option" where
  "string_token ts = (case ts of TStr v # rest \<Rightarrow> Some (v, rest) | _ \<Rightarrow> None)"

definition number_token :: "token list \<Rightarrow> (int \<times> token list) option" where
  "number_token ts = (case ts of TNum i # rest \<Rightarrow> Some (i, rest) | _ \<Rightarrow> None)"

definition member_key :: "token list \<Rightarrow> (string \<times> token list) option" where
  \<comment> \<open>a key and its colon\<close>
  "member_key ts =
     (case string_token ts of
        None \<Rightarrow> None
      | Some (k, rest) \<Rightarrow> map_option (Pair k) (expect Colon rest))"

definition field_key :: "string \<Rightarrow> token list \<Rightarrow> token list option" where
  "field_key name ts =
     (case member_key ts of
        None \<Rightarrow> None
      | Some (k, rest) \<Rightarrow> if k = name then Some rest else None)"

lemma expect_shorter: "expect t ts = Some rest \<Longrightarrow> length rest < length ts"
  by (auto simp: expect_def split: list.splits if_splits)

lemma string_token_shorter: "string_token ts = Some (v, rest) \<Longrightarrow> length rest < length ts"
  by (auto simp: string_token_def split: list.splits token.splits)

lemma number_token_shorter: "number_token ts = Some (i, rest) \<Longrightarrow> length rest < length ts"
  by (auto simp: number_token_def split: list.splits token.splits)

lemma member_key_shorter: "member_key ts = Some (k, rest) \<Longrightarrow> length rest < length ts"
  by (auto simp: member_key_def split: option.splits dest!: string_token_shorter expect_shorter)

lemma field_key_shorter: "field_key name ts = Some rest \<Longrightarrow> length rest < length ts"
  by (auto simp: field_key_def split: option.splits if_splits dest: member_key_shorter)

function decode_line_members ::
  "(int \<times> string) list \<Rightarrow> token list \<Rightarrow> ((int \<times> string) list \<times> token list) option" where
  \<comment> \<open>the members of a \<open>line_index\<close> object, added to the map in the order read\<close>
  "decode_line_members acc ts =
     (case member_key ts of
        None \<Rightarrow> None
      | Some (k, ts1) \<Rightarrow>
          (case string_token ts1 of
             None \<Rightarrow> None
           | Some (v, ts2) \<Rightarrow>
               (case ParseInt k of
                  None \<Rightarrow> None
                | Some n \<Rightarrow>
                    (case ts2 of
                       Comma # ts3 \<Rightarrow> decode_line_members (AList.update n v acc) ts3
                     | RBrace # ts3 \<Rightarrow> Some (AList.update n v acc, ts3)
                     | _ \<Rightarrow> None))))"
  by pat_completeness auto
termination
  by (relation "measure (\<lambda>(acc, ts). length ts)")
    (auto dest!: member_key_shorter string_token_shorter)

definition decode_lines :: "token list \<Rightarrow> ((int \<times> string) list \<times> token list) option" where
  "decode_lines ts =
     (case expect LBrace ts of
        None \<Rightarrow> None
      | Some ts1 \<Rightarrow>
          (case ts1 of
             RBrace # ts2 \<Rightarrow> Some ([], ts2)
           | _ \<Rightarrow> decode_line_members [] ts1))"

definition decode_entry :: "token list \<Rightarrow> (FileEntry \<times> token list) option" where
  \<comment> \<open>a file entry, its fields in the order \<open>Save\<close> writes them\<close>
  "decode_entry ts =
     (case expect LBrace ts of None \<Rightarrow> None | Some ts \<Rightarrow>
     (case field_key ''path'' ts of None \<Rightarrow> None | Some ts \<Rightarrow>
     (case string_token ts of None \<Rightarrow> None | Some (p, ts) \<Rightarrow>
     (case expect Comma ts of None \<Rightarrow> None | Some ts \<Rightarrow>
     (case field_key ''line_index'' ts of None \<Rightarrow> None | Some ts \<Rightarrow>
     (case decode_lines ts of None \<Rightarrow> None | Some (ls, ts) \<Rightarrow>
     (case expect Comma ts of None \<Rightarrow> None | Some ts \<Rightarrow>
     (case field_key ''modified'' ts of None \<Rightarrow> None | Some ts \<Rightarrow>
     (case number_token ts of None \<Rightarrow> None | Some (m, ts) \<Rightarrow>
     (case expect RBrace ts of None \<Rightarrow> None | Some ts \<Rightarrow>
        Some (\<lparr>Path = p, LineIndex = ls, Modified = m\<rparr>, ts)))))))))))"

lemma decode_line_members_shorter:
  "decode_line_members acc ts = Some (ls, rest) \<Longrightarrow> length rest < length ts"
proof (induction acc ts rule: decode_line_members.induct)
  case (1 acc ts)
  from "1.prems" obtain k ts1 v ts2 n where
    k: "member_key ts = Some (k, ts1)" and v: "string_token ts1 = Some (v, ts2)"
    and n: "ParseInt k = Some n"
    by (auto simp: decode_line_members.simps [of acc ts] split: option.splits)
  from k v have len: "length ts2 < length ts"
    by (auto dest!: member_key_shorter string_token_shorter)
  show ?case
  proof (cases ts2)
    case Nil
    with "1.prems" k v n show ?thesis
      by (simp add: decode_line_members.simps [of acc ts])
  next
    case (Cons t ts3)
    show ?thesis
    proof (cases t)
      case Comma
      with Cons "1.prems" k v n have "decode_line_members (AList.update n v acc) ts3 = Some (ls, rest)"
        by (simp add: decode_line_members.simps [of acc ts])
      with "1.IH" [OF k refl v refl n Cons [unfolded Comma]] have "length rest < length ts3"
        by simp
      with len Cons show ?thesis by simp
    next
      case RBrace
      with Cons "1.prems" k v n len show ?thesis
        by (auto simp: decode_line_members.simps [of acc ts])
    qed (use Cons "1.prems" k v n in \<open>simp_all add: decode_line_members.simps [of acc ts]\<close>)
  qed
qed

lemma decode_lines_shorter:
  assumes "decode_lines ts = Some (ls, rest)"
  shows "length rest < length ts"
proof -
  from assms obtain ts1 where ts1: "expect LBrace ts = Some ts1"
    by (auto simp: decode_lines_def split: option.splits)
  then have len: "length ts1 < length ts"
    by (rule expect_shorter)
  show ?thesis
  proof (cases "\<exists>ts2. ts1 = RBrace # ts2")
    case True
    with assms ts1 len show ?thesis
      by (auto simp: decode_lines_def)
  next
    case False
    with assms ts1 have "decode_line_members [] ts1 = Some (ls, rest)"
      by (auto simp: decode_lines_def split: list.splits token.splits)
    then have "length rest < length ts1"
      by (rule decode_line_members_shorter)
    with len show ?thesis by simp
  qed
qed

lemma decode_entry_shorter:
  assumes "decode_entry ts = Some (entry, rest)"
  shows "length rest < length ts"
proof -
  from assms obtain t1 where t1: "expect LBrace ts = Some t1"
    by (cases "expect LBrace ts") (simp_all add: decode_entry_def)
  with assms obtain t2 where t2: "field_key ''path'' t1 = Some t2"
    by (cases "field_key ''path'' t1") (simp_all add: decode_entry_def)
  with assms t1 obtain p t3 where t3: "string_token t2 = Some (p, t3)"
    by (cases "string_token t2") (auto simp: decode_entry_def)
  with assms t1 t2 obtain t4 where t4: "expect Comma t3 = Some t4"
    by (cases "expect Comma t3") (simp_all add: decode_entry_def)
  with assms t1 t2 t3 obtain t5 where t5: "field_key ''line_index'' t4 = Some t5"
    by (cases "field_key ''line_index'' t4") (simp_all add: decode_entry_def)
  with assms t1 t2 t3 t4 obtain ls t6 where t6: "decode_lines t5 = Some (ls, t6)"
    by (cases "decode_lines t5") (auto simp: decode_entry_def)
  with assms t1 t2 t3 t4 t5 obtain t7 where t7: "expect Comma t6 = Some t7"
    by (cases "expect Comma t6") (simp_all add: decode_entry_def)
  with assms t1 t2 t3 t4 t5 t6 obtain t8 where t8: "field_key ''modified'' t7 = Some t8"
    by (cases "field_key ''modified'' t7") (simp_all add: decode_entry_def)
  with assms t1 t2 t3 t4 t5 t6 t7 obtain m t9 where t9: "number_token t8 = Some (m, t9)"
    by (cases "number_token t8") (auto simp: decode_entry_def)
  with assms t1 t2 t3 t4 t5 t6 t7 t8 have t10: "expect RBrace t9 = Some rest"
    by (cases "expect RBrace t9") (simp_all add: decode_entry_def)
  from expect_shorter [OF t1] field_key_shorter [OF t2] string_token_shorter [OF t3]
    expect_shorter [OF t4] field_key_shorter [OF t5] decode_lines_shorter [OF t6]
    expect_shorter [OF t7] field_key_shorter [OF t8] number_token_shorter [OF t9]
    expect_shorter [OF t10]
  show ?thesis by linarith
qed

function decode_members ::
  "(string \<times> FileEntry) list \<Rightarrow> token list \<Rightarrow> ((string \<times> FileEntry) list \<times> token list) option" where
  \<comment> \<open>the members of the document, added to the map in the order read\<close>
  "decode_members acc ts =
     (case member_key ts of
        None \<Rightarrow> None
      | Some (path, ts1) \<Rightarrow>
          (case decode_entry ts1 of
             None \<Rightarrow> None
           | Some (entry, ts2) \<Rightarrow>
               (case ts2 of
                  Comma # ts3 \<Rightarrow> decode_members (AList.update path entry acc) ts3
                | RBrace # ts3 \<Rightarrow> Some (AList.update path entry acc, ts3)
                | _ \<Rightarrow> None)))"
  by pat_completeness auto
termination
  by (relation "measure (\<lambda>(acc, ts). length ts)")
    (auto dest!: member_key_shorter decode_entry_shorter)

definition decode_files :: "token list \<Rightarrow> (string \<times> FileEntry) list option" where
  "decode_files ts =
     (case expect LBrace ts of
        None \<Rightarrow> None
      | Some ts1 \<Rightarrow>
          (case (case ts1 of
                   RBrace # ts2 \<Rightarrow> Some ([], ts2)
                 | _ \<Rightarrow> decode_members [] ts1) of
             Some (data, []) \<Rightarrow> Some data
           | _ \<Rightarrow> None))"

definition json_Unmarshal :: unmarshal where
  \<comment> \<open>\<open>json.Unmarshal\<close> into an empty map of file entries\<close>
  "json_Unmarshal bytes =
     (case lex bytes of
        None \<Rightarrow> Inl ErrSyntax
      | Some ts \<Rightarrow> (case decode_files ts of None \<Rightarrow> Inl ErrSyntax | Some data \<Rightarrow> Inr data))"

declare decode_line_members.simps [simp del] decode_members.simps [simp del] lex.simps [simp del]
  unquote.simps [simp del] quote_body.simps [simp del]


section \<open>Loading, saving and reconciling\<close>

text \<open>
  Claim C6 (as amended).  When no prior save exists, the first variant's \<open>Load\<close> returns
  an empty mapping and no error, and the second variant's \<open>LoadIndex\<close> returns the
  error of opening the file.  In both variants, when the cache file exists and cannot be
  parsed, the load returns the parser's error.
\<close>

theorem Load_missing_or_corrupt:
  "Load unmarshal (Inl ErrNotExist) = Inr [] \<and>
   (unmarshal bytes = Inl err \<longrightarrow> Load unmarshal (Inr bytes) = Inl err) \<and>
   ws_LoadIndex ws_unmarshal (Inl ErrNotExist) Files = (Files, Some ErrNotExist) \<and>
   (ws_unmarshal bytes = Inl err \<longrightarrow> ws_LoadIndex ws_unmarshal (Inr bytes) Files = (Files, Some err))"
proof (intro conjI impI)
  show "Load unmarshal (Inl ErrNotExist) = Inr []"
    by (simp add: Load_def)
next
  assume "unmarshal bytes = Inl err"
  then show "Load unmarshal (Inr bytes) = Inl err"
    by (simp add: Load_def)
next
  show "ws_LoadIndex ws_unmarshal (Inl ErrNotExist) Files = (Files, Some ErrNotExist)"
    by (simp add: ws_LoadIndex_def)
next
  assume "ws_unmarshal bytes = Inl err"
  then show "ws_LoadIndex ws_unmarshal (Inr bytes) Files = (Files, Some err)"
    by (simp add: ws_LoadIndex_def)
qed

text \<open>The second variant, started without a saved index.\<close>

theorem ws_LoadIndex_missing_counterexample:
  "ws_LoadIndex (\<lambda>bytes. Inr []) (Inl ErrNotExist) [] = ([], Some ErrNotExist)"
  by (simp add: ws_LoadIndex_def)

text \<open>
  Claim C7 (as amended).  A failing save reports the error to the caller.  When creating
  the directory or opening the file fails, the cache file is as before.  When writing
  fails, the file, truncated when it was opened, holds the bytes written so far: a prefix
  of the new content, which need be neither the previous nor the new content.  Both
  variants write in place; neither replaces the file atomically.
\<close>

theorem Save_failure:
  "Save marshal (MkdirFails err) d idx = (d, Some err) \<and>
   fst (Save marshal (OpenFails err) d idx) = d \<and>
   snd (Save marshal (OpenFails err) d idx) \<noteq> None \<and>
   (marshal (GetFiles idx) = Inr jsonData \<longrightarrow>
      Save marshal (WriteFails n err) d idx = (Inr (take n jsonData), Some err)) \<and>
   ws_SaveIndex ws_marshal (OpenFails err) d Files = (d, Some err) \<and>
   (ws_marshal Files = Inr bytes \<longrightarrow>
      ws_SaveIndex ws_marshal (WriteFails n err) d Files = (Inr (take n bytes), Some err))"
proof (intro conjI impI)
  show "Save marshal (MkdirFails err) d idx = (d, Some err)"
    by (simp add: Save_def os_MkdirAll_def)
next
  show "fst (Save marshal (OpenFails err) d idx) = d"
    by (simp add: Save_def os_MkdirAll_def os_WriteFile_def split: sum.splits)
next
  show "snd (Save marshal (OpenFails err) d idx) \<noteq> None"
    by (simp add: Save_def os_MkdirAll_def os_WriteFile_def split: sum.splits)
next
  assume "marshal (GetFiles idx) = Inr jsonData"
  then show "Save marshal (WriteFails n err) d idx = (Inr (take n jsonData), Some err)"
    by (simp add: Save_def os_MkdirAll_def os_WriteFile_def)
next
  show "ws_SaveIndex ws_marshal (OpenFails err) d Files = (d, Some err)"
    by (simp add: ws_SaveIndex_def)
next
  assume "ws_marshal Files = Inr bytes"
  then show "ws_SaveIndex ws_marshal (WriteFails n err) d Files = (Inr (take n bytes), Some err)"
    by (simp add: ws_SaveIndex_def)
qed

definition one_file :: Index where
  "one_file = \<lparr>files = [(''/a.txt'', \<lparr>Path = ''/a.txt'', LineIndex = [(1, ''hi'')], Modified = 7\<rparr>)],
               workers = 1, indexed = 1, skipped = 0\<rparr>"

declare decimal.simps [simp del]

lemma decimal_digit: "n < 10 \<Longrightarrow> decimal n = [''0123456789'' ! n]"
  by (simp add: decimal.simps)

definition json_marshal :: marshal where
  \<comment> \<open>\<open>json.MarshalIndent\<close> has no error for a map of file entries\<close>
  "json_marshal data = Inr (json_MarshalIndent data)"

lemma render_object:
  "\<exists>rest. render (object depth ms) = CHR ''{'' # rest \<and> rest \<noteq> []"
  by (cases "ms = []") (simp_all add: object_def render_def)

lemma json_MarshalIndent_brace:
  "\<exists>rest. json_MarshalIndent data = CHR ''{'' # rest \<and> rest \<noteq> []"
  unfolding json_MarshalIndent_def encode_files_def by (rule render_object)

text \<open>
  A first save of the empty index succeeds; the next save fails after one byte and leaves
  a file that is neither the previous nor the new document.
\<close>

theorem Save_partial_write_counterexample:
  "Save json_marshal NoFault (Inl ErrNotExist) (NewIndex 1) = (Inr ''{}'', None) \<and>
   Save json_marshal (WriteFails 1 ErrIO) (Inr ''{}'') one_file = (Inr ''{'', Some ErrIO) \<and>
   ''{'' \<noteq> ''{}'' \<and> ''{'' \<noteq> json_MarshalIndent (GetFiles one_file)"
proof -
  obtain rest where rest: "json_MarshalIndent (GetFiles one_file) = CHR ''{'' # rest" "rest \<noteq> []"
    using json_MarshalIndent_brace by blast
  have "json_MarshalIndent [] = ''{}''"
    by (simp add: json_MarshalIndent_def encode_files_def object_def render_def)
  then have first: "Save json_marshal NoFault (Inl ErrNotExist) (NewIndex 1) = (Inr ''{}'', None)"
    by (simp add: Save_def os_MkdirAll_def os_WriteFile_def json_marshal_def GetFiles_def NewIndex_def)
  have second: "Save json_marshal (WriteFails 1 ErrIO) (Inr ''{}'') one_file = (Inr ''{'', Some ErrIO)"
    using rest(1) by (simp add: Save_def os_MkdirAll_def os_WriteFile_def json_marshal_def)
  from first second rest show ?thesis by simp
qed

theorem Save_failure_witness:
  "json_marshal (GetFiles (NewIndex 1)) = Inr ''{}'' \<and>
   Save json_marshal (WriteFails 1 ErrIO) (Inl ErrNotExist) (NewIndex 1) = (Inr ''{'', Some ErrIO) \<and>
   Save json_marshal (MkdirFails ErrPermission) (Inr ''{}'') (NewIndex 1) = (Inr ''{}'', Some ErrPermission)"
proof -
  have m: "json_marshal (GetFiles (NewIndex 1)) = Inr ''{}''"
    by (simp add: json_marshal_def json_MarshalIndent_def encode_files_def object_def render_def
        GetFiles_def NewIndex_def)
  from Save_failure [of json_marshal ErrPermission "Inr ''{}''" "NewIndex 1"]
  have a: "Save json_marshal (MkdirFails ErrPermission) (Inr ''{}'') (NewIndex 1) =
             (Inr ''{}'', Some ErrPermission)"
    by simp
  from Save_failure [of json_marshal ErrIO "Inl ErrNotExist" "NewIndex 1" "''{}''" 1] m
  have b: "Save json_marshal (WriteFails 1 ErrIO) (Inl ErrNotExist) (NewIndex 1) = (Inr ''{'', Some ErrIO)"
    by simp
  from m a b show ?thesis by simp
qed

lemma json_Unmarshal_truncated: "json_Unmarshal ''{'' = Inl ErrSyntax"
  by (simp add: json_Unmarshal_def lex.simps decode_files_def expect_def
      decode_members.simps member_key_def string_token_def is_space_def)

theorem Load_missing_or_corrupt_witness:
  "json_Unmarshal ''{'' = Inl ErrSyntax \<and>
   Load json_Unmarshal (Inr ''{'') = Inl ErrSyntax \<and>
   ws_LoadIndex (\<lambda>bytes. Inl ErrSyntax) (Inr ''{'') [] = ([], Some ErrSyntax)"
  using Load_missing_or_corrupt [of json_Unmarshal "''{''" ErrSyntax "\<lambda>bytes. Inl ErrSyntax" "[]"]
    json_Unmarshal_truncated
  by simp









end
